theory Spec2Isabelle
  imports Complex_Main "HOL-Library.Sublist" "HOL-Library.AList"
begin

section \<open>JavaScript string primitives used by the chat request handler\<close>

text \<open>
  The handler in \<open>src/app/api/chat/route.ts\<close> works on the reply of the model with
  \<open>includes\<close>, \<open>split\<close>, \<open>indexOf\<close>, \<open>lastIndexOf\<close>, \<open>substring\<close>, \<open>trim\<close> and one
  regular expression.  A string is a list of characters; a character stands for one code
  unit in the range 0..255.  \<open>indexOf\<close> returns \<open>None\<close> where JavaScript returns \<open>-1\<close>.
\<close>

fun indexOf :: "string \<Rightarrow> string \<Rightarrow> nat option" where
  "indexOf m [] = (if m = [] then Some 0 else None)"
| "indexOf m (c # cs) =
     (if prefix m (c # cs) then Some 0 else map_option Suc (indexOf m cs))"

fun lastIndexOf :: "string \<Rightarrow> string \<Rightarrow> nat option" where
  "lastIndexOf m [] = (if m = [] then Some 0 else None)"
| "lastIndexOf m (c # cs) =
     (case lastIndexOf m cs of
        Some i \<Rightarrow> Some (Suc i)
      | None \<Rightarrow> if prefix m (c # cs) then Some 0 else None)"

definition includes_str :: "string \<Rightarrow> string \<Rightarrow> bool" where
  "includes_str m s = (indexOf m s \<noteq> None)"

text \<open>\<open>s.substring(a, b)\<close> for \<open>a \<le> b\<close>, the only way the handler calls it.\<close>

definition substring :: "nat \<Rightarrow> nat \<Rightarrow> string \<Rightarrow> string" where
  "substring a b s = take (b - a) (drop a s)"

text \<open>
  White space of ECMAScript in the range 0..255: TAB, LF, VT, FF, CR, SP and NBSP.
\<close>

definition is_ws :: "char \<Rightarrow> bool" where
  "is_ws c = (of_char c \<in> {9, 10, 11, 12, 13, 32, 160 :: nat})"

definition trim :: "string \<Rightarrow> string" where
  "trim s = rev (dropWhile is_ws (rev (dropWhile is_ws s)))"

lemma indexOf_Nil_Some: "indexOf m [] = Some i \<Longrightarrow> m = []"
  by (simp split: if_splits)

lemma indexOf_nonempty: "indexOf m s = Some i \<Longrightarrow> m \<noteq> [] \<Longrightarrow> s \<noteq> []"
  using indexOf_Nil_Some by blast

text \<open>
  \<open>s.split(sep)\<close>: the pieces between successive occurrences of the separator, searched
  from the left, each search starting after the previous occurrence.  With the empty
  separator JavaScript returns the code units one by one.
\<close>

function split :: "string \<Rightarrow> string \<Rightarrow> string list" where
  "split sep s =
     (if sep = [] then map (\<lambda>c. [c]) s
      else case indexOf sep s of
             None \<Rightarrow> [s]
           | Some i \<Rightarrow> take i s # split sep (drop (i + length sep) s))"
  by pat_completeness auto
termination
proof (relation "measure (\<lambda>(sep, s). length s)")
  show "wf (measure (\<lambda>(sep, s). length s))" by simp
next
  fix sep s :: string and i :: nat
  assume ne: "sep \<noteq> []" and ix: "indexOf sep s = Some i"
  from indexOf_nonempty [OF ix ne] have "s \<noteq> []" .
  with ne show "((sep, drop (i + length sep) s), (sep, s)) \<in> measure (\<lambda>(sep, s). length s)"
    by (cases s; cases sep) simp_all
qed

declare split.simps [simp del]

text \<open>\<open>xs[i]\<close>: \<open>None\<close> is JavaScript's \<open>undefined\<close>.\<close>

definition item :: "'a list \<Rightarrow> nat \<Rightarrow> 'a option" where
  "item xs i = (if i < length xs then Some (xs ! i) else None)"

text \<open>
  \<open>s.match(/\{[\s\S]*?\}/)\<close>: the match starts at the first opening brace and, the star
  being lazy, ends at the first closing brace after it; without such a closing brace no
  later start can match either.
\<close>

definition match_braces :: "string \<Rightarrow> string option" where
  "match_braces s =
     (case indexOf ''{'' s of
        None \<Rightarrow> None
      | Some i \<Rightarrow>
          (case indexOf ''}'' (drop (Suc i) s) of
             None \<Rightarrow> None
           | Some j \<Rightarrow> Some (take (j + 2) (drop i s))))"

section \<open>The reply parser of the chat request handler\<close>

text \<open>
  \<open>JSON.parse\<close> is the runtime's; the parser takes it as the parameter \<open>jp\<close>, which returns
  \<open>None\<close> where \<open>JSON.parse\<close> throws a \<open>SyntaxError\<close>.
\<close>

datatype json =
    JNull
  | JBool bool
  | JNum rat
  | JStr string
  | JArr "json list"
  | JObj "(string \<times> json) list"

datatype js_error = TypeError | SyntaxError | LayoutError

record chat_result =
  response :: string
  graphAction :: "json option"
  quickReplies :: json

definition GRAPH_ACTION :: string where
  "GRAPH_ACTION = ''---GRAPH_ACTION---''"

definition QUICK_REPLIES :: string where
  "QUICK_REPLIES = ''---QUICK_REPLIES---''"

text \<open>
  The body of both \<open>try\<close> blocks that read the quick replies (lines 185--194 and
  215--224): a failure of \<open>JSON.parse\<close> is caught and leaves the initial \<open>[]\<close>.
\<close>

definition parse_quick_replies :: "(string \<Rightarrow> json option) \<Rightarrow> string \<Rightarrow> json" where
  "parse_quick_replies jp qrSection =
     (case indexOf ''['' qrSection of
        None \<Rightarrow> JArr []
      | Some startIdx \<Rightarrow>
          (case lastIndexOf '']'' qrSection of
             None \<Rightarrow> JArr []
           | Some endIdx \<Rightarrow>
               if endIdx > startIdx then
                 (case jp (substring startIdx (endIdx + 1) qrSection) of
                    None \<Rightarrow> JArr []
                  | Some v \<Rightarrow> v)
               else JArr []))"

text \<open>The \<open>try\<close> block that reads the graph action (lines 199--209).\<close>

definition parse_graph_action :: "(string \<Rightarrow> json option) \<Rightarrow> string \<Rightarrow> json option" where
  "parse_graph_action jp afterGraph =
     (let graphSection =
            (case indexOf QUICK_REPLIES afterGraph of
               Some qrIndex \<Rightarrow> substring 0 qrIndex afterGraph
             | None \<Rightarrow> afterGraph)
      in case match_braces graphSection of
           None \<Rightarrow> None
         | Some jsonMatch \<Rightarrow> jp jsonMatch)"

text \<open>
  Lines 171--226 of \<open>POST\<close>.  \<open>graphSplit[0].trim()\<close> and \<open>qrSplit[0].trim()\<close> throw a
  \<open>TypeError\<close> on \<open>undefined\<close>; \<open>graphSplit[1] || ''\<close> and the test \<open>if (qrSection)\<close>
  treat \<open>undefined\<close> and the empty string alike.
\<close>

definition parseReply :: "(string \<Rightarrow> json option) \<Rightarrow> string \<Rightarrow> js_error + chat_result" where
  "parseReply jp originalText =
     (if includes_str GRAPH_ACTION originalText then
        (let graphSplit = split GRAPH_ACTION originalText in
         case item graphSplit 0 of
           None \<Rightarrow> Inl TypeError
         | Some first \<Rightarrow>
            (let afterGraph = (case item graphSplit 1 of None \<Rightarrow> [] | Some a \<Rightarrow> a);
                 qr = (if includes_str QUICK_REPLIES afterGraph then
                         (case item (split QUICK_REPLIES afterGraph) 1 of
                            None \<Rightarrow> JArr []
                          | Some qrSection \<Rightarrow>
                              if qrSection \<noteq> [] then parse_quick_replies jp qrSection
                              else JArr [])
                       else JArr [])
             in Inr \<lparr>response = trim first,
                     graphAction = parse_graph_action jp afterGraph,
                     quickReplies = qr\<rparr>))
      else if includes_str QUICK_REPLIES originalText then
        (let qrSplit = split QUICK_REPLIES originalText in
         case item qrSplit 0 of
           None \<Rightarrow> Inl TypeError
         | Some first \<Rightarrow>
             Inr \<lparr>response = trim first,
                  graphAction = None,
                  quickReplies =
                    (case item qrSplit 1 of
                       None \<Rightarrow> JArr []
                     | Some qrSection \<Rightarrow>
                         if qrSection \<noteq> [] then parse_quick_replies jp qrSection
                         else JArr [])\<rparr>)
      else Inr \<lparr>response = originalText, graphAction = None, quickReplies = JArr []\<rparr>)"


section \<open>The layout engine wrapper of the graph store\<close>

text \<open>
  A JavaScript number is a rational or \<open>NaN\<close>; \<open>undefined - 200\<close> is \<open>NaN\<close>.  Rounding of
  doubles is not modelled.
\<close>

datatype num = Num rat | NaN

fun num_sub :: "num \<Rightarrow> rat \<Rightarrow> num" where
  "num_sub (Num a) b = Num (a - b)"
| "num_sub NaN b = NaN"

text \<open>
  The \<open>data\<close> object of a node, with the fields the store reads or writes.  A missing
  string field is \<open>None\<close>; a missing flag is \<open>False\<close>.  The constant \<open>type: 'mindNode'\<close> and
  the styling of edges are left out: nothing in the store reads them.
\<close>

record node_data =
  label :: "string option"
  isRoot :: bool
  description :: "string option"
  emoji :: "string option"
  diagram :: "string option"
  imageUrl :: "string option"
  imageLoading :: bool
  index :: "nat option"

record node =
  node_id :: string
  position :: "num \<times> num"
  data :: "node_data option"

record edge =
  edge_id :: string
  source :: string
  target :: string
  animated :: bool

text \<open>Truthiness of an optional string: \<open>undefined\<close>, \<open>null\<close> and \<open>''\<close> are falsy.\<close>

definition truthy :: "string option \<Rightarrow> bool" where
  "truthy s = (case s of None \<Rightarrow> False | Some x \<Rightarrow> x \<noteq> [])"

text \<open>\<open>node.data?.imageUrl || node.data?.imageLoading\<close> (lines 64 and 79).\<close>

definition hasImage :: "node \<Rightarrow> bool" where
  "hasImage n = (case data n of None \<Rightarrow> False | Some d \<Rightarrow> truthy (imageUrl d) \<or> imageLoading d)"

subsection \<open>The graph object handed to the layout library\<close>

text \<open>
  \<open>dagre.graphlib.Graph\<close> is a library class.  Its state is kept as the nodes in insertion
  order with their labels, and the edges in insertion order.  \<open>setNode(v, label)\<close> sets the
  label of \<open>v\<close>, adding \<open>v\<close> when new.  \<open>setEdge(v, w)\<close> of a graph that is not a multigraph
  does nothing when the edge exists; otherwise it first makes sure that both end points
  are nodes of the graph, adding a missing one with the default node label \<open>undefined\<close>,
  and then adds the edge.  \<open>node(v)\<close> returns the label of \<open>v\<close>, which is \<open>undefined\<close> for
  an unknown \<open>v\<close>.
\<close>

record dagre_label =
  width :: rat
  height :: rat

record graph_config =
  rankdir :: string
  nodesep :: rat
  ranksep :: rat
  marginx :: rat
  marginy :: rat

record dagre_graph =
  g_config :: graph_config
  g_nodes :: "(string \<times> dagre_label option) list"
  g_edges :: "(string \<times> string) list"

definition setGraph :: "graph_config \<Rightarrow> dagre_graph" where
  "setGraph c = \<lparr>g_config = c, g_nodes = [], g_edges = []\<rparr>"

definition setNode :: "string \<Rightarrow> dagre_label \<Rightarrow> dagre_graph \<Rightarrow> dagre_graph" where
  "setNode v l g = g\<lparr>g_nodes := AList.update v (Some l) (g_nodes g)\<rparr>"

definition ensureNode :: "string \<Rightarrow> dagre_graph \<Rightarrow> dagre_graph" where
  "ensureNode v g =
     (if v \<in> fst ` set (g_nodes g) then g else g\<lparr>g_nodes := g_nodes g @ [(v, None)]\<rparr>)"

definition setEdge :: "string \<Rightarrow> string \<Rightarrow> dagre_graph \<Rightarrow> dagre_graph" where
  "setEdge v w g =
     (if (v, w) \<in> set (g_edges g) then g
      else (ensureNode w (ensureNode v g))\<lparr>g_edges := g_edges g @ [(v, w)]\<rparr>)"

definition graph_node :: "dagre_graph \<Rightarrow> string \<Rightarrow> dagre_label option" where
  "graph_node g v = (case map_of (g_nodes g) v of None \<Rightarrow> None | Some l \<Rightarrow> l)"

text \<open>Every end point of an edge of the graph is a node of the graph.\<close>

definition endpoints_known :: "dagre_graph \<Rightarrow> bool" where
  "endpoints_known g =
     (\<forall>(v, w) \<in> set (g_edges g). v \<in> fst ` set (g_nodes g) \<and> w \<in> fst ` set (g_nodes g))"

text \<open>Lines 62--69: the bounding box registered for a node.\<close>

definition node_box :: "node \<Rightarrow> dagre_label" where
  "node_box n = \<lparr>width = 400, height = (if hasImage n then 350 else 200)\<rparr>"

text \<open>Lines 50--73: the graph as it stands when \<open>dagre.layout\<close> is called.\<close>

definition dagreGraph :: "node list \<Rightarrow> edge list \<Rightarrow> dagre_graph" where
  "dagreGraph ns es =
     foldl (\<lambda>g e. setEdge (source e) (target e) g)
       (foldl (\<lambda>g n. setNode (node_id n) (node_box n) g)
          (setGraph \<lparr>rankdir = ''TB'', nodesep = 100, ranksep = 180,
                     marginx = 100, marginy = 100\<rparr>)
          ns)
       es"

text \<open>
  \<open>dagre.layout\<close> is the library's and is a parameter of the model.  Called on a graph it
  either throws (\<open>None\<close>) or returns after writing the coordinates \<open>x\<close> and \<open>y\<close> of the
  centre of each node into the label objects of the graph; a coordinate it does not write
  reads as \<open>NaN\<close> in the arithmetic of lines 83--84.
\<close>

type_synonym layout_engine = "dagre_graph \<Rightarrow> (string \<Rightarrow> num \<times> num) option"

text \<open>
  Modelled from the library's documentation: what \<open>nodesep\<close> promises.  Two different
  nodes that the library puts on one rank, that is at one height \<open>y\<close>, have their centres
  at least half the sum of their registered widths plus \<open>nodesep\<close> apart.  A node without
  label has width 0.
\<close>

definition label_width :: "dagre_label option \<Rightarrow> rat" where
  "label_width l = (case l of None \<Rightarrow> 0 | Some b \<Rightarrow> width b)"

definition separated :: "dagre_graph \<Rightarrow> (string \<Rightarrow> num \<times> num) \<Rightarrow> bool" where
  "separated g pos =
     (\<forall>(u, lu) \<in> set (g_nodes g). \<forall>(v, lv) \<in> set (g_nodes g).
        u \<noteq> v \<longrightarrow>
        (case pos u of
           (Num xu, Num yu) \<Rightarrow>
             (case pos v of
                (Num xv, Num yv) \<Rightarrow>
                  yu = yv \<longrightarrow>
                  label_width lu / 2 + label_width lv / 2 + nodesep (g_config g) \<le> \<bar>xu - xv\<bar>
              | _ \<Rightarrow> True)
         | _ \<Rightarrow> True))"

fun map_result :: "('a \<Rightarrow> 'e + 'b) \<Rightarrow> 'a list \<Rightarrow> 'e + 'b list" where
  "map_result f [] = Inr []"
| "map_result f (x # xs) =
     (case f x of
        Inl e \<Rightarrow> Inl e
      | Inr y \<Rightarrow> (case map_result f xs of Inl e \<Rightarrow> Inl e | Inr ys \<Rightarrow> Inr (y # ys)))"

text \<open>
  Lines 77--87, for one node: the object literal of lines 80--86, and the read
  \<open>nodeWithPosition.x\<close>, which throws a \<open>TypeError\<close> when \<open>dagreGraph.node(node.id)\<close> is
  \<open>undefined\<close>.
\<close>

definition positioned :: "(string \<Rightarrow> num \<times> num) \<Rightarrow> node \<Rightarrow> node" where
  "positioned pos n =
     n\<lparr>position := (num_sub (fst (pos (node_id n))) 200,
                    num_sub (snd (pos (node_id n))) (if hasImage n then 175 else 100))\<rparr>"

definition place :: "dagre_graph \<Rightarrow> (string \<Rightarrow> num \<times> num) \<Rightarrow> node \<Rightarrow> js_error + node" where
  "place g pos n =
     (case graph_node g (node_id n) of
        None \<Rightarrow> Inl TypeError
      | Some nodeWithPosition \<Rightarrow> Inr (positioned pos n))"

definition getLayoutedElements ::
  "layout_engine \<Rightarrow> node list \<Rightarrow> edge list \<Rightarrow> js_error + (node list \<times> edge list)" where
  "getLayoutedElements layout ns es =
     (let g = dagreGraph ns es in
      case layout g of
        None \<Rightarrow> Inl LayoutError
      | Some pos \<Rightarrow>
          (case map_result (place g pos) ns of
             Inl e \<Rightarrow> Inl e
           | Inr layoutedNodes \<Rightarrow> Inr (layoutedNodes, es)))"

section \<open>The graph store\<close>

datatype role = User | Model

record chat_message =
  msg_role :: role
  msg_text :: string
  msg_quickReplies :: "string list option"

record session_data =
  sess_id :: string
  sess_title :: string
  sess_nodes :: "node list"
  sess_edges :: "edge list"
  sess_chatHistory :: "chat_message list"
  sess_updatedAt :: nat

record flow_state =
  nodes :: "node list"
  edges :: "edge list"
  currentSessionId :: "string option"
  chatHistory :: "chat_message list"
  storedSessions :: "string \<rightharpoonup> session_data"
  isLoading :: bool
  shouldFitView :: bool
  expandingNodeId :: "string option"
  sidebarOpen :: bool
  chatOpen :: bool
  documentContext :: "string option"

definition greeting :: "chat_message list" where
  "greeting =
     [\<lparr>msg_role = Model,
       msg_text = ''Hi! Select a node or ask me anything to deepen your understanding.'',
       msg_quickReplies = None\<rparr>]"

text \<open>Decimal rendering of a number inside a template string.\<close>

fun show_nat :: "nat \<Rightarrow> string" where
  "show_nat n =
     (if n < 10 then [char_of (48 + n)]
      else show_nat (n div 10) @ [char_of (48 + n mod 10)])"

declare show_nat.simps [simp del]

text \<open>
  The graph action that the chat panel passes on, with the fields of the schema the
  model is given; each is a string when present.
\<close>

record graph_action =
  act_type :: string
  act_label :: "string option"
  act_description :: "string option"
  act_emoji :: "string option"
  parentLabel :: "string option"
  act_diagram :: "string option"
  imagePrompt :: "string option"

text \<open>
  The default emoji of line 295 is the code point U+1F4DD, outside the range of
  characters modelled here; the text below stands for it.
\<close>

definition MEMO :: string where
  "MEMO = ''U+1F4DD''"

text \<open>Line 270: \<open>n.data?.isRoot\<close>.\<close>

definition is_root :: "node \<Rightarrow> bool" where
  "is_root n = (case data n of None \<Rightarrow> False | Some d \<Rightarrow> isRoot d)"

text \<open>
  Line 275: \<open>n.data?.label?.toLowerCase().includes(parentLabel.toLowerCase())\<close>, with
  \<open>toLowerCase\<close> as the parameter \<open>lc\<close>.
\<close>

definition label_matches :: "(string \<Rightarrow> string) \<Rightarrow> string \<Rightarrow> node \<Rightarrow> bool" where
  "label_matches lc pl n =
     (case data n of
        None \<Rightarrow> False
      | Some d \<Rightarrow> (case label d of None \<Rightarrow> False | Some l \<Rightarrow> includes_str (lc pl) (lc l)))"

text \<open>Lines 270--285: the node the new node is attached to.\<close>

definition parentNode :: "(string \<Rightarrow> string) \<Rightarrow> graph_action \<Rightarrow> node list \<Rightarrow> node option" where
  "parentNode lc action ns =
     (let rootNode = find is_root ns;
          byLabel = (case parentLabel action of
                       None \<Rightarrow> None
                     | Some pl \<Rightarrow> if pl \<noteq> [] then find (label_matches lc pl) ns else None);
          orRoot = (case byLabel of None \<Rightarrow> rootNode | Some p \<Rightarrow> Some p)
      in case orRoot of None \<Rightarrow> item ns 0 | Some p \<Rightarrow> Some p)"

definition newNode :: "string \<Rightarrow> graph_action \<Rightarrow> node" where
  "newNode newId action =
     \<lparr>node_id = newId,
      position = (Num 0, Num 0),
      data = Some \<lparr>label = act_label action,
                   isRoot = False,
                   description = act_description action,
                   emoji = (if truthy (act_emoji action) then act_emoji action else Some MEMO),
                   diagram = (if truthy (act_diagram action) then act_diagram action else None),
                   imageUrl = None,
                   imageLoading = truthy (imagePrompt action),
                   index = None\<rparr>\<rparr>"

definition newEdge :: "node \<Rightarrow> string \<Rightarrow> edge" where
  "newEdge parent newId =
     \<lparr>edge_id = ''e-chat-'' @ node_id parent @ ''-'' @ newId,
      source = node_id parent,
      target = newId,
      animated = True\<rparr>"

text \<open>
  \<open>addNodesFromChat\<close> up to the \<open>set\<close> of lines 316--320, with \<open>Date.now()\<close> as the parameter
  \<open>now\<close>.  An exception of the layout pass leaves the function before \<open>set\<close> is reached.
  The request for an image that follows runs later and is not part of this step.
\<close>

definition addNodesFromChat ::
  "layout_engine \<Rightarrow> (string \<Rightarrow> string) \<Rightarrow> nat \<Rightarrow> graph_action \<Rightarrow> flow_state
     \<Rightarrow> js_error + flow_state" where
  "addNodesFromChat layout lc now action st =
     (if act_type action \<noteq> ''add_node'' then Inr st
      else case parentNode lc action (nodes st) of
             None \<Rightarrow> Inr st
           | Some parent \<Rightarrow>
               (let newId = ''node-chat-'' @ show_nat now;
                    allNodes = nodes st @ [newNode newId action];
                    allEdges = edges st @ [newEdge parent newId]
                in case getLayoutedElements layout allNodes allEdges of
                     Inl e \<Rightarrow> Inl e
                   | Inr (layoutedNodes, layoutedEdges) \<Rightarrow>
                       Inr (st\<lparr>nodes := layoutedNodes, edges := layoutedEdges,
                               shouldFitView := True\<rparr>)))"

text \<open>
  \<open>expandNode\<close>, taken as one step: the store is assumed not to change while the request to
  \<open>/api/generate-graph\<close> is in flight.  \<open>resp\<close> is \<open>data.nodes\<close> of the response, \<open>None\<close> when it
  is missing or the request failed.  Every exception is caught, and \<open>finally\<close> clears
  \<open>expandingNodeId\<close>.  \<open>now i\<close> is \<open>Date.now()\<close> at the element of index \<open>i\<close>.
\<close>

record generated_node =
  gen_label :: "string option"
  gen_description :: "string option"
  gen_diagram :: "string option"

definition expandedNode :: "(nat \<Rightarrow> nat) \<Rightarrow> nat \<Rightarrow> generated_node \<Rightarrow> node" where
  "expandedNode now i gn =
     \<lparr>node_id = ''node-'' @ show_nat (now i) @ ''-'' @ show_nat i,
      position = (Num 0, Num 0),
      data = Some \<lparr>label = gen_label gn,
                   isRoot = False,
                   description = gen_description gn,
                   emoji = None,
                   diagram = gen_diagram gn,
                   imageUrl = None,
                   imageLoading = False,
                   index = Some i\<rparr>\<rparr>"

definition expandedEdge :: "string \<Rightarrow> node \<Rightarrow> edge" where
  "expandedEdge parentId n =
     \<lparr>edge_id = ''e-'' @ parentId @ ''-'' @ node_id n,
      source = parentId,
      target = node_id n,
      animated = True\<rparr>"

definition expandNode ::
  "layout_engine \<Rightarrow> (nat \<Rightarrow> nat) \<Rightarrow> string \<Rightarrow> generated_node list option \<Rightarrow> flow_state
     \<Rightarrow> flow_state" where
  "expandNode layout now parentId resp st =
     (case find (\<lambda>n. node_id n = parentId) (nodes st) of
        None \<Rightarrow> st\<lparr>expandingNodeId := None\<rparr>
      | Some found \<Rightarrow>
          (case resp of
             None \<Rightarrow> st\<lparr>expandingNodeId := None\<rparr>
           | Some gns \<Rightarrow>
               if gns = [] then st\<lparr>expandingNodeId := None\<rparr>
               else
                 (let newNodes = map (\<lambda>(i, gn). expandedNode now i gn) (enumerate 0 gns);
                      newEdges = map (expandedEdge parentId) newNodes
                  in case getLayoutedElements layout (nodes st @ newNodes)
                            (edges st @ newEdges) of
                       Inl e \<Rightarrow> st\<lparr>expandingNodeId := None\<rparr>
                     | Inr (layoutedNodes, layoutedEdges) \<Rightarrow>
                         st\<lparr>nodes := layoutedNodes, edges := layoutedEdges,
                            expandingNodeId := None\<rparr>)))"

text \<open>
  \<open>onConnect\<close> (lines 155--159); \<open>addEdge\<close> is React Flow's and a parameter of the model.
\<close>

definition onConnect :: "('c \<Rightarrow> edge list \<Rightarrow> edge list) \<Rightarrow> 'c \<Rightarrow> flow_state \<Rightarrow> flow_state" where
  "onConnect addEdge connection st = st\<lparr>edges := addEdge connection (edges st)\<rparr>"

subsection \<open>Sessions\<close>

definition createNewSession :: "flow_state \<Rightarrow> flow_state" where
  "createNewSession st =
     st\<lparr>nodes := [], edges := [], currentSessionId := None, chatHistory := greeting\<rparr>"

text \<open>
  \<open>loadSession\<close>: \<open>session.nodes || []\<close> is \<open>session.nodes\<close> for every array, and a stored
  session holds arrays.
\<close>

definition loadSession :: "string \<Rightarrow> flow_state \<Rightarrow> flow_state" where
  "loadSession i st =
     (case storedSessions st i of
        None \<Rightarrow> st
      | Some session \<Rightarrow>
          st\<lparr>currentSessionId := Some (sess_id session),
             nodes := sess_nodes session,
             edges := sess_edges session,
             chatHistory := sess_chatHistory session,
             isLoading := False\<rparr>)"

text \<open>
  \<open>saveSession\<close>, with \<open>crypto.randomUUID()\<close> and \<open>Date.now()\<close> as the parameters \<open>uuid\<close> and
  \<open>now\<close>.  \<open>currentSessionId || uuid\<close> takes \<open>uuid\<close> for \<open>null\<close> and for the empty string.
\<close>

definition session_key :: "string \<Rightarrow> flow_state \<Rightarrow> string" where
  "session_key uuid st =
     (case currentSessionId st of
        None \<Rightarrow> uuid
      | Some c \<Rightarrow> if c \<noteq> [] then c else uuid)"

definition saveSession :: "string \<Rightarrow> nat \<Rightarrow> string \<Rightarrow> flow_state \<Rightarrow> flow_state" where
  "saveSession uuid now title st =
     (let i = session_key uuid st;
          session = \<lparr>sess_id = i, sess_title = title, sess_nodes = nodes st,
                     sess_edges = edges st, sess_chatHistory = chatHistory st,
                     sess_updatedAt = now\<rparr>
      in st\<lparr>storedSessions := (storedSessions st)(i \<mapsto> session),
            currentSessionId := Some i\<rparr>)"

definition deleteSession :: "string \<Rightarrow> flow_state \<Rightarrow> flow_state" where
  "deleteSession i st =
     (let st' = st\<lparr>storedSessions := (storedSessions st)(i := None)\<rparr>
      in if currentSessionId st = Some i then createNewSession st' else st')"

section \<open>Sample data\<close>

text \<open>
  A layout engine to evaluate the store with: it puts the nodes of the graph in one row,
  in insertion order, inside the margins and \<open>nodesep\<close> apart.  It is one possible
  behaviour of the parameter, not a model of the library.
\<close>

fun row_positions ::
  "rat \<Rightarrow> rat \<Rightarrow> (string \<times> dagre_label option) list \<Rightarrow> rat \<Rightarrow> string \<Rightarrow> num \<times> num" where
  "row_positions gap y0 [] x v = (NaN, NaN)"
| "row_positions gap y0 ((k, l) # ps) x v =
     (let w = (case l of None \<Rightarrow> 0 | Some b \<Rightarrow> width b);
          h = (case l of None \<Rightarrow> 0 | Some b \<Rightarrow> height b)
      in if k = v then (Num (x + w / 2), Num (y0 + h / 2))
         else row_positions gap y0 ps (x + w + gap) v)"

definition row_layout :: layout_engine where
  "row_layout g =
     Some (row_positions (nodesep (g_config g)) (marginy (g_config g)) (g_nodes g)
             (marginx (g_config g)))"

text \<open>An engine that throws on every graph.\<close>

definition failing_layout :: layout_engine where
  "failing_layout g = None"

text \<open>\<open>toLowerCase\<close> on the letters A to Z.\<close>

definition lc_ascii :: "string \<Rightarrow> string" where
  "lc_ascii s =
     map (\<lambda>c. if 65 \<le> (of_char c :: nat) \<and> (of_char c :: nat) \<le> 90
              then char_of ((of_char c :: nat) + 32) else c) s"

definition root0 :: node where
  "root0 =
     \<lparr>node_id = ''root'', position = (Num 0, Num 0),
      data = Some \<lparr>label = Some ''Photosynthesis'', isRoot = True,
                   description = Some ''how plants make food'', emoji = None,
                   diagram = None, imageUrl = None, imageLoading = False,
                   index = None\<rparr>\<rparr>"

definition light0 :: node where
  "light0 =
     \<lparr>node_id = ''node-chat-1'', position = (Num 0, Num 0),
      data = Some \<lparr>label = Some ''Light Reactions'', isRoot = False,
                   description = None, emoji = None,
                   diagram = None, imageUrl = Some ''data:image/png;base64,AAAA'',
                   imageLoading = False, index = None\<rparr>\<rparr>"

definition store0 :: flow_state where
  "store0 =
     \<lparr>nodes = [root0], edges = [], currentSessionId = None, chatHistory = greeting,
      storedSessions = Map.empty, isLoading = False, shouldFitView = False,
      expandingNodeId = None, sidebarOpen = True, chatOpen = True,
      documentContext = None\<rparr>"

definition action0 :: graph_action where
  "action0 =
     \<lparr>act_type = ''add_node'', act_label = Some ''Chlorophyll'',
      act_description = Some ''the green pigment'', act_emoji = None,
      parentLabel = Some ''Calvin Cycle'', act_diagram = None, imagePrompt = None\<rparr>"

text \<open>
  A store with two nodes that both sit at the origin, as after the user has dragged
  them there; a connection between them; an edge from an identifier that names no node;
  and a stand-in for React Flow's \<open>addEdge\<close> that appends the connection.
\<close>

definition store1 :: flow_state where
  "store1 = store0\<lparr>nodes := [root0, light0]\<rparr>"

definition conn0 :: edge where
  "conn0 = \<lparr>edge_id = ''reactflow__edge-root-node-chat-1'', source = ''root'',
            target = ''node-chat-1'', animated = False\<rparr>"

definition ghost_edge :: edge where
  "ghost_edge = \<lparr>edge_id = ''e-ghost-root'', source = ''ghost'', target = ''root'',
                 animated = True\<rparr>"

definition append_edge :: "edge \<Rightarrow> edge list \<Rightarrow> edge list" where
  "append_edge c es = es @ [c]"

text \<open>
  A store with two saved sessions, the first of them loaded; and one generated child.
\<close>

definition store2 :: flow_state where
  "store2 =
     loadSession ''u-1''
       (saveSession ''u-2'' 9 ''Untitled Graph''
          (createNewSession (saveSession ''u-1'' 7 ''Photosynthesis'' store1)))"

definition gen0 :: generated_node where
  "gen0 = \<lparr>gen_label = Some ''Chloroplast'', gen_description = Some ''where it happens'',
           gen_diagram = None\<rparr>"

text \<open>
  A second child of the root, without image; the edges of the tree with the root above
  its two children; and a behaviour of the layout library on that tree: the children side
  by side on one rank, the root above them.  \<open>row_engine\<close> is \<open>row_layout\<close> as a library
  call that returns.
\<close>

definition leaf0 :: node where
  "leaf0 =
     \<lparr>node_id = ''node-chat-2'', position = (Num 0, Num 0),
      data = Some \<lparr>label = Some ''Calvin Cycle'', isRoot = False,
                   description = None, emoji = None,
                   diagram = None, imageUrl = None,
                   imageLoading = False, index = None\<rparr>\<rparr>"

definition tree_edges :: "edge list" where
  "tree_edges =
     [\<lparr>edge_id = ''e-chat-root-node-chat-1'', source = ''root'', target = ''node-chat-1'',
       animated = True\<rparr>,
      \<lparr>edge_id = ''e-chat-root-node-chat-2'', source = ''root'', target = ''node-chat-2'',
       animated = True\<rparr>]"

definition tree_positions :: "string \<Rightarrow> num \<times> num" where
  "tree_positions v =
     (if v = ''root'' then (Num 550, Num 200)
      else if v = ''node-chat-1'' then (Num 300, Num 655)
      else if v = ''node-chat-2'' then (Num 800, Num 655)
      else (NaN, NaN))"

definition tree_layout :: layout_engine where
  "tree_layout g = Some tree_positions"

definition row_engine :: "dagre_graph \<Rightarrow> string \<Rightarrow> num \<times> num" where
  "row_engine g =
     row_positions (nodesep (g_config g)) (marginy (g_config g)) (g_nodes g)
       (marginx (g_config g))"

text \<open>
  A small table standing for \<open>JSON.parse\<close> on the texts that occur in the sample replies
  below; every other text is treated as malformed.
\<close>

definition jp_sample :: "string \<Rightarrow> json option" where
  \<open>jp_sample s =
     (if s = ''[]'' then Some (JArr [])
      else if s = ''{}'' then Some (JObj [])
      else if s = ''["Why?"]'' then Some (JArr [JStr ''Why?''])
      else if s = ''{"type":"add_node"}'' then Some (JObj [(''type'', JStr ''add_node'')])
      else None)\<close>


subsection \<open>What the specification calls the first marker\<close>

text \<open>
  A marker occurs at position \<open>i\<close> of the reply when one of the two delimiters starts
  there.  \<open>first_marker\<close> is the position of the first marker of either kind, and
  \<open>qr_before_ga\<close> says that the reply has both markers with a quick-replies marker in front
  of the first graph-action marker.
\<close>

definition marker_at :: "string \<Rightarrow> nat \<Rightarrow> bool" where
  "marker_at t i = (prefix GRAPH_ACTION (drop i t) \<or> prefix QUICK_REPLIES (drop i t))"

definition first_marker :: "string \<Rightarrow> nat option" where
  "first_marker t =
     (case indexOf GRAPH_ACTION t of
        None \<Rightarrow> indexOf QUICK_REPLIES t
      | Some k \<Rightarrow>
          (case indexOf QUICK_REPLIES t of
             None \<Rightarrow> Some k
           | Some j \<Rightarrow> Some (min k j)))"

definition qr_before_ga :: "string \<Rightarrow> bool" where
  "qr_before_ga t =
     (case indexOf GRAPH_ACTION t of
        None \<Rightarrow> False
      | Some k \<Rightarrow>
          (case indexOf QUICK_REPLIES t of
             None \<Rightarrow> False
           | Some j \<Rightarrow> j < k))"

subsection \<open>What the specification calls the text between the markers\<close>




definition bracket_span :: "string \<Rightarrow> string option" where
  "bracket_span s =
     (case indexOf ''['' s of
        None \<Rightarrow> None
      | Some a \<Rightarrow>
          (case lastIndexOf '']'' s of
             None \<Rightarrow> None
           | Some b \<Rightarrow> if a < b then Some (take (b + 1 - a) (drop a s)) else None))"




section \<open>Properties of the string primitives\<close>

lemma indexOf_Some_prefix: "indexOf m s = Some i \<Longrightarrow> prefix m (drop i s)"
proof (induction s arbitrary: i)
  case Nil
  then show ?case by (simp split: if_splits)
next
  case (Cons c cs)
  then show ?case by (auto split: if_splits)
qed

lemma indexOf_Some_least: "indexOf m s = Some i \<Longrightarrow> j < i \<Longrightarrow> \<not> prefix m (drop j s)"
proof (induction s arbitrary: i j)
  case Nil
  then show ?case by (simp split: if_splits)
next
  case (Cons c cs)
  then show ?case by (cases j) (auto split: if_splits)
qed

lemma indexOf_None: "indexOf m s = None \<Longrightarrow> \<not> prefix m (drop j s)"
proof (induction s arbitrary: j)
  case Nil
  then show ?case by (simp split: if_splits)
next
  case (Cons c cs)
  then show ?case by (cases j) (auto split: if_splits)
qed

lemma item_split_0:
  "m \<noteq> [] \<Longrightarrow>
   item (split m s) 0 = Some (case indexOf m s of None \<Rightarrow> s | Some i \<Rightarrow> take i s)"
  by (subst split.simps) (simp add: item_def split: option.splits)

lemma GRAPH_ACTION_nonempty: "GRAPH_ACTION \<noteq> []"
  by (simp add: GRAPH_ACTION_def)

lemma QUICK_REPLIES_nonempty: "QUICK_REPLIES \<noteq> []"
  by (simp add: QUICK_REPLIES_def)

text \<open>\<open>first_marker\<close> is the least position at which a marker occurs.\<close>

lemma first_marker_is_marker: "first_marker t = Some i \<Longrightarrow> marker_at t i"
  by (auto simp: first_marker_def marker_at_def min_def
      dest: indexOf_Some_prefix split: option.splits if_splits)

lemma first_marker_least:
  assumes fm: "first_marker t = Some i" and lt: "j < i"
  shows "\<not> marker_at t j"
proof -
  have ga: "\<not> prefix GRAPH_ACTION (drop j t)"
  proof (cases "indexOf GRAPH_ACTION t")
    case None
    then show ?thesis by (rule indexOf_None)
  next
    case (Some k)
    with fm lt have "j < k"
      by (auto simp: first_marker_def min_def split: option.splits if_splits)
    with Some show ?thesis by (rule indexOf_Some_least)
  qed
  have qr: "\<not> prefix QUICK_REPLIES (drop j t)"
  proof (cases "indexOf QUICK_REPLIES t")
    case None
    then show ?thesis by (rule indexOf_None)
  next
    case (Some k)
    with fm lt have "j < k"
      by (auto simp: first_marker_def min_def split: option.splits if_splits)
    with Some show ?thesis by (rule indexOf_Some_least)
  qed
  from ga qr show ?thesis by (simp add: marker_at_def)
qed

lemma first_marker_None: "first_marker t = None \<Longrightarrow> \<not> marker_at t j"
  by (auto simp: first_marker_def marker_at_def
      dest: indexOf_None split: option.splits)

section \<open>Properties of the reply parser\<close>

lemma parseReply_Inr: "\<exists>r. parseReply jp t = Inr r"
  by (simp add: parseReply_def Let_def item_split_0
      GRAPH_ACTION_nonempty QUICK_REPLIES_nonempty)

lemma parseReply_response:
  "parseReply jp t = Inr r \<Longrightarrow>
   response r =
     (case indexOf GRAPH_ACTION t of
        Some k \<Rightarrow> trim (take k t)
      | None \<Rightarrow>
          (case indexOf QUICK_REPLIES t of
             Some j \<Rightarrow> trim (take j t)
           | None \<Rightarrow> t))"
  by (auto simp add: parseReply_def Let_def item_split_0 includes_str_def
      GRAPH_ACTION_nonempty QUICK_REPLIES_nonempty split: if_splits option.splits)















text \<open>
  C1, as the specification states it, fails.  The reply below has a quick-replies marker
  at position 3, in front of the graph-action marker.  The text before the first marker,
  trimmed, is \<open>hi\<close>, but the handler splits at the graph-action marker first, so the
  message it returns still holds the quick-replies marker and what follows it.
\<close>

theorem parseReply_message_quick_replies_first:
  "first_marker ''hi ---QUICK_REPLIES---[]---GRAPH_ACTION---{}'' = Some 3
   \<and> trim (take 3 ''hi ---QUICK_REPLIES---[]---GRAPH_ACTION---{}'') = ''hi''
   \<and> parseReply jp_sample ''hi ---QUICK_REPLIES---[]---GRAPH_ACTION---{}''
       = Inr \<lparr>response = ''hi ---QUICK_REPLIES---[]'', graphAction = Some (JObj []),
              quickReplies = JArr []\<rparr>"
  by code_simp

text \<open>
  C1, amended.  For every reply that holds a marker, the handler returns a message, and
  that message is the trimmed text before the first graph-action marker when the reply
  has one; this is the trimmed text before the first marker of either kind unless a
  quick-replies marker stands in front of the first graph-action marker.
\<close>

theorem parseReply_message_before_marker:
  assumes "first_marker t = Some i"
  shows "\<exists>r. parseReply jp t = Inr r
           \<and> (\<not> qr_before_ga t \<longrightarrow> response r = trim (take i t))
           \<and> (\<forall>k. indexOf GRAPH_ACTION t = Some k \<longrightarrow> response r = trim (take k t))"
proof -
  obtain r where r: "parseReply jp t = Inr r" using parseReply_Inr by blast
  note resp = parseReply_response [OF r]
  have a: "\<not> qr_before_ga t \<Longrightarrow> response r = trim (take i t)"
    using assms resp
    by (auto simp: first_marker_def qr_before_ga_def min_def split: option.splits if_splits)
  have b: "\<forall>k. indexOf GRAPH_ACTION t = Some k \<longrightarrow> response r = trim (take k t)"
    using resp by simp
  from r a b show ?thesis by blast
qed

theorem parseReply_message_before_marker_witness:
  \<open>first_marker '' hi ---GRAPH_ACTION---{}---QUICK_REPLIES---["Why?"] '' = Some 4
   \<and> (\<exists>r. parseReply jp_sample '' hi ---GRAPH_ACTION---{}---QUICK_REPLIES---["Why?"] ''
            = Inr r
          \<and> response r = ''hi'')\<close>
proof -
  let ?t = \<open>'' hi ---GRAPH_ACTION---{}---QUICK_REPLIES---["Why?"] ''\<close>
  have h: "first_marker ?t = Some 4" by code_simp
  have q: "\<not> qr_before_ga ?t" by code_simp
  have tr: "trim (take 4 ?t) = ''hi''" by code_simp
  from parseReply_message_before_marker [OF h, of jp_sample] q tr show ?thesis
    using h by auto
qed











lemma prefix_single_drop: "prefix [c] (drop i s) \<Longrightarrow> drop i s = c # drop (Suc i) s"
  by (cases "drop i s") (auto simp: drop_Suc drop_tl)

lemma take_Suc_drop_Cons:
  assumes "drop d xs = c # ys"
  shows "take (Suc d) xs = take d xs @ [c]"
proof -
  from assms have len: "d < length xs" by (cases "d < length xs") auto
  from assms have "xs ! d = c" by (rule nth_via_drop)
  with len show ?thesis by (simp add: take_Suc_conv_app_nth)
qed

lemma match_braces_shape:
  assumes "match_braces s = Some m"
  shows "sublist m s \<and> prefix ''{'' m \<and> suffix ''}'' m"
proof -
  from assms obtain i j where i: "indexOf ''{'' s = Some i"
    and j: "indexOf ''}'' (drop (Suc i) s) = Some j"
    and m: "m = take (j + 2) (drop i s)"
    by (auto simp: match_braces_def split: option.splits)
  from indexOf_Some_prefix [OF i] have di: "drop i s = CHR ''{'' # drop (Suc i) s"
    by (rule prefix_single_drop)
  from indexOf_Some_prefix [OF j]
  have dj: "drop j (drop (Suc i) s) = CHR ''}'' # drop (Suc j) (drop (Suc i) s)"
    by (rule prefix_single_drop)
  have "take (Suc j) (drop (Suc i) s) = take j (drop (Suc i) s) @ ''}''"
    using dj by (rule take_Suc_drop_Cons)
  with m di have m': "m = CHR ''{'' # take j (drop (Suc i) s) @ ''}''" by simp
  have "sublist m (drop i s)" unfolding m by simp
  then have "sublist m s" by (rule sublist_order.order.trans) (rule sublist_drop)
  with m' show ?thesis by (simp add: suffix_def)
qed

lemma lastIndexOf_Some_prefix: "lastIndexOf m s = Some i \<Longrightarrow> prefix m (drop i s)"
proof (induction s arbitrary: i)
  case Nil
  then show ?case by (simp split: if_splits)
next
  case (Cons c cs)
  then show ?case by (auto split: if_splits option.splits)
qed


lemma bracket_span_shape:
  assumes "bracket_span s = Some c"
  shows "sublist c s \<and> prefix ''['' c \<and> suffix '']'' c"
proof -
  from assms obtain a where a: "indexOf ''['' s = Some a"
    by (cases "indexOf ''['' s") (simp_all add: bracket_span_def)
  from assms a obtain b where b: "lastIndexOf '']'' s = Some b"
    by (cases "lastIndexOf '']'' s") (simp_all add: bracket_span_def)
  from assms a b have ab: "a < b" and c: "c = take (b + 1 - a) (drop a s)"
    by (simp_all add: bracket_span_def split: if_splits)
  define e where "e = b - Suc a"
  from ab have eb: "e + Suc a = b" and ba: "b + 1 - a = Suc (Suc e)"
    by (simp_all add: e_def)
  from indexOf_Some_prefix [OF a] have da: "drop a s = CHR ''['' # drop (Suc a) s"
    by (rule prefix_single_drop)
  from lastIndexOf_Some_prefix [OF b] have db: "drop b s = CHR '']'' # drop (Suc b) s"
    by (rule prefix_single_drop)
  have "drop e (drop (Suc a) s) = drop b s" by (simp only: drop_drop eb)
  with db have "take (Suc e) (drop (Suc a) s) = take e (drop (Suc a) s) @ '']''"
    by (simp only: take_Suc_drop_Cons)
  with c da ba have c': "c = CHR ''['' # take e (drop (Suc a) s) @ '']''"
    by (simp only: take_Suc_Cons)
  have "sublist c (drop a s)" unfolding c by (rule sublist_take)
  then have "sublist c s" by (rule sublist_order.order.trans) (rule sublist_drop)
  with c' show ?thesis by (simp add: suffix_def)
qed





section \<open>Properties of the layout engine wrapper\<close>

lemma graph_node_setNode:
  "graph_node (setNode v l g) k = (if k = v then Some l else graph_node g k)"
  by (simp add: graph_node_def setNode_def update_conv')

lemma graph_node_ensureNode: "graph_node (ensureNode v g) k = graph_node g k"
proof (cases "v \<in> fst ` set (g_nodes g)")
  case True
  then show ?thesis by (simp add: ensureNode_def)
next
  case False
  then have "map_of (g_nodes g) v = None" by (simp add: map_of_eq_None_iff)
  with False show ?thesis
    by (cases "k = v") (simp_all add: graph_node_def ensureNode_def map_add_def split: option.splits)
qed

lemma graph_node_edges_update: "graph_node (g\<lparr>g_edges := es\<rparr>) k = graph_node g k"
  by (simp add: graph_node_def)

lemma graph_node_setEdge: "graph_node (setEdge v w g) k = graph_node g k"
  by (simp add: setEdge_def graph_node_edges_update graph_node_ensureNode)

lemma graph_node_fold_setEdge:
  "graph_node (foldl (\<lambda>g e. setEdge (source e) (target e) g) g es) k = graph_node g k"
  by (induction es arbitrary: g) (simp_all add: graph_node_setEdge)

lemma graph_node_fold_setNode:
  "graph_node (foldl (\<lambda>g n. setNode (node_id n) (node_box n) g) g ns) k = None
   \<longleftrightarrow> k \<notin> node_id ` set ns \<and> graph_node g k = None"
  by (induction ns arbitrary: g) (auto simp: graph_node_setNode)

lemma graph_node_setGraph: "graph_node (setGraph c) k = None"
  by (simp add: graph_node_def setGraph_def)

lemma graph_node_dagreGraph:
  "graph_node (dagreGraph ns es) k = None \<longleftrightarrow> k \<notin> node_id ` set ns"
  by (simp add: dagreGraph_def graph_node_fold_setEdge graph_node_fold_setNode
      graph_node_setGraph)

lemma map_result_place:
  "\<forall>n \<in> set ns. graph_node g (node_id n) \<noteq> None \<Longrightarrow>
   map_result (place g pos) ns = Inr (map (positioned pos) ns)"
  by (induction ns) (auto simp: place_def split: option.splits)

lemma map_result_place_subset:
  assumes "set ns \<subseteq> set ms"
  shows "map_result (place (dagreGraph ms es) pos) ns = Inr (map (positioned pos) ns)"
proof (rule map_result_place, rule ballI)
  fix n
  assume "n \<in> set ns"
  with assms have "node_id n \<in> node_id ` set ms" by blast
  then show "graph_node (dagreGraph ms es) (node_id n) \<noteq> None"
    by (simp only: graph_node_dagreGraph not_not)
qed

lemma getLayoutedElements_Some:
  "layout (dagreGraph ns es) = Some pos \<Longrightarrow>
   getLayoutedElements layout ns es = Inr (map (positioned pos) ns, es)"
  by (simp add: getLayoutedElements_def Let_def map_result_place_subset)

lemma getLayoutedElements_None:
  "layout (dagreGraph ns es) = None \<Longrightarrow> getLayoutedElements layout ns es = Inl LayoutError"
  by (simp add: getLayoutedElements_def Let_def)

lemma getLayoutedElements_cases:
  "getLayoutedElements layout ns es =
     (case layout (dagreGraph ns es) of
        None \<Rightarrow> Inl LayoutError
      | Some pos \<Rightarrow> Inr (map (positioned pos) ns, es))"
  by (simp add: getLayoutedElements_Some getLayoutedElements_None split: option.splits)

lemma node_id_positioned [simp]: "node_id (positioned pos n) = node_id n"
  by (simp add: positioned_def)

lemma hasImage_positioned [simp]: "hasImage (positioned pos n) = hasImage n"
  by (simp add: positioned_def hasImage_def)

lemma node_box_positioned [simp]: "node_box (positioned pos n) = node_box n"
  by (simp add: node_box_def)

lemma positioned_idem [simp]: "positioned pos (positioned pos n) = positioned pos n"
  by (simp add: positioned_def hasImage_def)

lemma dagreGraph_positioned: "dagreGraph (map (positioned pos) ns) es = dagreGraph ns es"
  by (simp add: dagreGraph_def foldl_map)

lemma g_edges_setNode: "g_edges (setNode v l g) = g_edges g"
  by (simp add: setNode_def)

lemma g_edges_ensureNode: "g_edges (ensureNode v g) = g_edges g"
  by (simp add: ensureNode_def)

lemma set_g_edges_setEdge: "set (g_edges (setEdge v w g)) = insert (v, w) (set (g_edges g))"
  by (auto simp: setEdge_def g_edges_ensureNode)

lemma set_g_edges_fold_setEdge:
  "set (g_edges (foldl (\<lambda>g e. setEdge (source e) (target e) g) g es))
   = set (g_edges g) \<union> (\<lambda>e. (source e, target e)) ` set es"
  by (induction es arbitrary: g) (auto simp: set_g_edges_setEdge)

lemma g_edges_fold_setNode:
  "g_edges (foldl (\<lambda>g n. setNode (node_id n) (node_box n) g) g ns) = g_edges g"
  by (induction ns arbitrary: g) (simp_all add: g_edges_setNode)

lemma set_g_edges_dagreGraph:
  "set (g_edges (dagreGraph ns es)) = (\<lambda>e. (source e, target e)) ` set es"
  by (simp add: dagreGraph_def set_g_edges_fold_setEdge g_edges_fold_setNode setGraph_def)

section \<open>Properties of the graph store\<close>

lemma parentNode_Nil: "parentNode lc action [] = None"
  by (simp add: parentNode_def item_def split: option.splits)

lemma parentNode_root:
  assumes root: "find is_root ns = Some rootNode"
    and nomatch: "\<forall>pl. parentLabel action = Some pl \<longrightarrow> pl \<noteq> [] \<longrightarrow>
                    (\<forall>n \<in> set ns. \<not> label_matches lc pl n)"
  shows "parentNode lc action ns = Some rootNode"
proof -
  have "(case parentLabel action of
           None \<Rightarrow> None
         | Some pl \<Rightarrow> if pl \<noteq> [] then find (label_matches lc pl) ns else None) = None"
    using nomatch by (auto simp: find_None_iff split: option.splits)
  with root show ?thesis by (simp add: parentNode_def Let_def)
qed

text \<open>
  C3.  Let the action be an \<open>add_node\<close> action, let \<open>rootNode\<close> be the root of the graph
  (the first node flagged \<open>isRoot\<close>), and let the parent label be absent, empty, or
  contained in the label of no node (both in lower case).  Then, the layout library
  returning, \<open>addNodesFromChat\<close> stores a state whose edges are the old ones followed by
  one new edge from the root to the new node, and whose nodes are the old ones followed
  by the new node.
\<close>

theorem addNodesFromChat_attaches_to_root:
  assumes add: "act_type action = ''add_node''"
    and root: "find is_root (nodes st) = Some rootNode"
    and nomatch: "\<forall>pl. parentLabel action = Some pl \<longrightarrow> pl \<noteq> [] \<longrightarrow>
                    (\<forall>n \<in> set (nodes st). \<not> label_matches lc pl n)"
    and returns: "layout (dagreGraph (nodes st @ [newNode (''node-chat-'' @ show_nat now) action])
                            (edges st @ [newEdge rootNode (''node-chat-'' @ show_nat now)]))
                  = Some pos"
  shows "\<exists>st' e. addNodesFromChat layout lc now action st = Inr st'
           \<and> edges st' = edges st @ [e]
           \<and> source e = node_id rootNode
           \<and> target e = ''node-chat-'' @ show_nat now
           \<and> map node_id (nodes st') = map node_id (nodes st) @ [''node-chat-'' @ show_nat now]"
proof -
  let ?newId = "''node-chat-'' @ show_nat now"
  have p: "parentNode lc action (nodes st) = Some rootNode"
    using root nomatch by (rule parentNode_root)
  have "addNodesFromChat layout lc now action st =
        Inr (st\<lparr>nodes := map (positioned pos) (nodes st @ [newNode ?newId action]),
                edges := edges st @ [newEdge rootNode ?newId], shouldFitView := True\<rparr>)"
    using add p getLayoutedElements_Some [where layout = layout, OF returns]
    by (simp add: addNodesFromChat_def Let_def)
  moreover have "source (newEdge rootNode ?newId) = node_id rootNode"
    and "target (newEdge rootNode ?newId) = ?newId"
    by (simp_all add: newEdge_def)
  moreover have "map node_id (map (positioned pos) (nodes st @ [newNode ?newId action]))
                 = map node_id (nodes st) @ [?newId]"
    by (simp add: newNode_def comp_def)
  ultimately show ?thesis by simp
qed

theorem addNodesFromChat_attaches_to_root_witness:
  "act_type action0 = ''add_node''
   \<and> find is_root (nodes store0) = Some root0
   \<and> parentLabel action0 = Some ''Calvin Cycle''
   \<and> \<not> label_matches lc_ascii ''Calvin Cycle'' root0
   \<and> (\<exists>st' e. addNodesFromChat row_layout lc_ascii 42 action0 store0 = Inr st'
          \<and> edges st' = [e] \<and> source e = ''root'' \<and> target e = ''node-chat-42''
          \<and> map node_id (nodes st') = [''root'', ''node-chat-42''])"
proof -
  have add: "act_type action0 = ''add_node''" by (simp add: action0_def)
  have root: "find is_root (nodes store0) = Some root0" by code_simp
  have pl: "parentLabel action0 = Some ''Calvin Cycle''" by (simp add: action0_def)
  have nm: "\<not> label_matches lc_ascii ''Calvin Cycle'' root0" by code_simp
  have ns: "nodes store0 = [root0]" and es: "edges store0 = []"
    by (simp_all add: store0_def)
  have nomatch: "\<forall>pl. parentLabel action0 = Some pl \<longrightarrow> pl \<noteq> [] \<longrightarrow>
                   (\<forall>n \<in> set (nodes store0). \<not> label_matches lc_ascii pl n)"
    using pl nm ns by simp
  have sn: "show_nat 42 = ''42''" by code_simp
  have rid: "node_id root0 = ''root''" by (simp add: root0_def)
  from addNodesFromChat_attaches_to_root
         [where layout = row_layout and lc = lc_ascii and now = 42, OF add root nomatch,
          OF row_layout_def]
  show ?thesis using add root pl nm by (simp add: sn rid ns es)
qed

text \<open>
  C10.  An action whose type is not \<open>add_node\<close>, and any action on a store without nodes,
  leaves the whole store as it is.
\<close>

theorem addNodesFromChat_noop:
  "act_type action \<noteq> ''add_node'' \<or> nodes st = [] \<Longrightarrow>
   addNodesFromChat layout lc now action st = Inr st"
  by (auto simp: addNodesFromChat_def parentNode_Nil)

theorem addNodesFromChat_noop_witness:
  "act_type (action0\<lparr>act_type := ''remove_node''\<rparr>) \<noteq> ''add_node''
   \<and> addNodesFromChat row_layout lc_ascii 42 (action0\<lparr>act_type := ''remove_node''\<rparr>) store0
       = Inr store0
   \<and> act_type action0 = ''add_node''
   \<and> nodes (store0\<lparr>nodes := []\<rparr>) = []
   \<and> addNodesFromChat row_layout lc_ascii 42 action0 (store0\<lparr>nodes := []\<rparr>)
       = Inr (store0\<lparr>nodes := []\<rparr>)"
proof -
  have a: "act_type (action0\<lparr>act_type := ''remove_node''\<rparr>) \<noteq> ''add_node''" by simp
  have b: "nodes (store0\<lparr>nodes := []\<rparr>) = []" by simp
  have c: "act_type action0 = ''add_node''" by (simp add: action0_def)
  from addNodesFromChat_noop
         [of "action0\<lparr>act_type := ''remove_node''\<rparr>" store0 row_layout lc_ascii 42]
       addNodesFromChat_noop [of action0 "store0\<lparr>nodes := []\<rparr>" row_layout lc_ascii 42]
       a b c
  show ?thesis by blast
qed

section \<open>More properties of the layout engine wrapper\<close>

lemma keys_setNode: "fst ` set (g_nodes (setNode v l g)) = insert v (fst ` set (g_nodes g))"
  by (simp add: setNode_def AList.dom_update)

lemma keys_ensureNode: "fst ` set (g_nodes (ensureNode v g)) = insert v (fst ` set (g_nodes g))"
  by (auto simp: ensureNode_def)

lemma endpoints_known_setNode: "endpoints_known g \<Longrightarrow> endpoints_known (setNode v l g)"
  by (auto simp: endpoints_known_def keys_setNode g_edges_setNode)

lemma endpoints_known_setEdge: "endpoints_known g \<Longrightarrow> endpoints_known (setEdge v w g)"
  by (auto simp: endpoints_known_def setEdge_def keys_ensureNode g_edges_ensureNode)

lemma endpoints_known_fold_setNode:
  "endpoints_known g \<Longrightarrow>
   endpoints_known (foldl (\<lambda>g n. setNode (node_id n) (node_box n) g) g ns)"
  by (induction ns arbitrary: g) (simp_all add: endpoints_known_setNode)

lemma endpoints_known_fold_setEdge:
  "endpoints_known g \<Longrightarrow>
   endpoints_known (foldl (\<lambda>g e. setEdge (source e) (target e) g) g es)"
  by (induction es arbitrary: g) (simp_all add: endpoints_known_setEdge)

lemma endpoints_known_dagreGraph: "endpoints_known (dagreGraph ns es)"
  unfolding dagreGraph_def
  by (intro endpoints_known_fold_setEdge endpoints_known_fold_setNode)
     (simp add: endpoints_known_def setGraph_def)

lemma dagreGraph_endpoints:
  assumes "e \<in> set es"
  shows "source e \<in> fst ` set (g_nodes (dagreGraph ns es))
       \<and> target e \<in> fst ` set (g_nodes (dagreGraph ns es))"
proof -
  from assms have "(source e, target e) \<in> set (g_edges (dagreGraph ns es))"
    by (simp add: set_g_edges_dagreGraph)
  with endpoints_known_dagreGraph [of ns es] show ?thesis
    by (auto simp: endpoints_known_def)
qed

lemma getLayoutedElements_fixpoint:
  assumes "getLayoutedElements layout ns es = Inr (ns', es')"
  shows "getLayoutedElements layout ns' es' = Inr (ns', es')"
proof (cases "layout (dagreGraph ns es)")
  case None
  with assms show ?thesis by (simp add: getLayoutedElements_cases)
next
  case (Some pos)
  with assms have ns': "ns' = map (positioned pos) ns" and es': "es' = es"
    by (simp_all add: getLayoutedElements_cases)
  from Some have "layout (dagreGraph ns' es') = Some pos"
    by (simp add: ns' es' dagreGraph_positioned)
  then show ?thesis
    by (simp add: getLayoutedElements_cases) (simp add: ns')
qed

lemma addNodesFromChat_changed:
  assumes r: "addNodesFromChat layout lc now action st = Inr st'"
    and ch: "nodes st' \<noteq> nodes st \<or> edges st' \<noteq> edges st"
  shows "\<exists>parent. getLayoutedElements layout
                    (nodes st @ [newNode (''node-chat-'' @ show_nat now) action])
                    (edges st @ [newEdge parent (''node-chat-'' @ show_nat now)])
                  = Inr (nodes st', edges st')"
proof (cases "act_type action \<noteq> ''add_node''")
  case True
  with r ch show ?thesis by (simp add: addNodesFromChat_def)
next
  case False
  show ?thesis
  proof (cases "parentNode lc action (nodes st)")
    case None
    with r ch False show ?thesis by (simp add: addNodesFromChat_def)
  next
    case (Some parent)
    with r False have
      "getLayoutedElements layout
         (nodes st @ [newNode (''node-chat-'' @ show_nat now) action])
         (edges st @ [newEdge parent (''node-chat-'' @ show_nat now)])
       = Inr (nodes st', edges st')"
      by (auto simp: addNodesFromChat_def Let_def split: sum.splits prod.splits)
    then show ?thesis by blast
  qed
qed

lemma expandNode_changed:
  assumes ch: "nodes (expandNode layout nowf parentId resp st) \<noteq> nodes st
             \<or> edges (expandNode layout nowf parentId resp st) \<noteq> edges st"
  shows "\<exists>gns. resp = Some gns \<and>
           getLayoutedElements layout
             (nodes st @ map (\<lambda>(i, gn). expandedNode nowf i gn) (enumerate 0 gns))
             (edges st @ map (expandedEdge parentId)
                           (map (\<lambda>(i, gn). expandedNode nowf i gn) (enumerate 0 gns)))
           = Inr (nodes (expandNode layout nowf parentId resp st),
                  edges (expandNode layout nowf parentId resp st))"
proof (cases "find (\<lambda>n. node_id n = parentId) (nodes st)")
  case None
  with ch show ?thesis by (simp add: expandNode_def)
next
  case parent: (Some found)
  show ?thesis
  proof (cases resp)
    case None
    with ch parent show ?thesis by (simp add: expandNode_def)
  next
    case (Some gns)
    with ch parent show ?thesis
      by (auto simp: expandNode_def Let_def split: sum.splits prod.splits if_splits)
  qed
qed


text \<open>
  C6, as the specification states it, fails: an edge whose source names no node is
  neither rejected nor ignored.  The pass returns normally, and the graph it hands to the
  layout library holds the edge and a node without a label for the unknown end point.
\<close>

theorem getLayoutedElements_forwards_dangling_edge:
  "getLayoutedElements row_layout [root0] [ghost_edge]
       = Inr ([root0\<lparr>position := (Num 100, Num 100)\<rparr>], [ghost_edge])
   \<and> g_nodes (dagreGraph [root0] [ghost_edge])
       = [(''root'', Some \<lparr>width = 400, height = 200\<rparr>), (''ghost'', None)]
   \<and> g_edges (dagreGraph [root0] [ghost_edge]) = [(''ghost'', ''root'')]
   \<and> source ghost_edge \<notin> node_id ` set [root0]"
  by code_simp

text \<open>
  C6, amended.  The pass never fails in its own code and returns a position for every
  input node, whatever the edges: the one read that can throw, \<open>nodeWithPosition.x\<close>, is
  made for input nodes only, and each of them was registered with its box; the nodes that
  stand for unknown end points have no label and are never read.  The call of the layout
  library is taken to return, as \<open>dagre.layout\<close> does on every graph; a library call that
  returns is a function \<open>engine\<close> from the graph to the coordinates.  Every edge,
  dangling or not, is an edge of the graph handed to the library, and both its end points
  are nodes of that graph.  For a library call that might throw, the result of the pass
  is the library's error or the positioned nodes, and never an error of the pass itself.
\<close>

theorem getLayoutedElements_any_edges:
  "getLayoutedElements (\<lambda>g. Some (engine g)) ns es
     = Inr (map (positioned (engine (dagreGraph ns es))) ns, es)
   \<and> map node_id (map (positioned (engine (dagreGraph ns es))) ns) = map node_id ns
   \<and> (\<forall>layout. getLayoutedElements layout ns es \<noteq> Inl TypeError)
   \<and> (\<forall>layout. getLayoutedElements layout ns es =
         (case layout (dagreGraph ns es) of
            None \<Rightarrow> Inl LayoutError
          | Some pos \<Rightarrow> Inr (map (positioned pos) ns, es)))
   \<and> set (g_edges (dagreGraph ns es)) = (\<lambda>e. (source e, target e)) ` set es
   \<and> (\<forall>e \<in> set es. source e \<in> fst ` set (g_nodes (dagreGraph ns es))
                   \<and> target e \<in> fst ` set (g_nodes (dagreGraph ns es)))
   \<and> (\<forall>k. k \<notin> node_id ` set ns \<longrightarrow> graph_node (dagreGraph ns es) k = None)"
proof (intro conjI allI ballI impI)
  show "getLayoutedElements (\<lambda>g. Some (engine g)) ns es
     = Inr (map (positioned (engine (dagreGraph ns es))) ns, es)"
    by (simp add: getLayoutedElements_cases)
  show "map node_id (map (positioned (engine (dagreGraph ns es))) ns) = map node_id ns"
    by (simp add: comp_def)
  show "set (g_edges (dagreGraph ns es)) = (\<lambda>e. (source e, target e)) ` set es"
    by (rule set_g_edges_dagreGraph)
next
  fix layout
  show "getLayoutedElements layout ns es \<noteq> Inl TypeError"
    by (simp add: getLayoutedElements_cases split: option.splits)
  show "getLayoutedElements layout ns es =
         (case layout (dagreGraph ns es) of
            None \<Rightarrow> Inl LayoutError
          | Some pos \<Rightarrow> Inr (map (positioned pos) ns, es))"
    by (rule getLayoutedElements_cases)
next
  fix e assume "e \<in> set es"
  then show "source e \<in> fst ` set (g_nodes (dagreGraph ns es))"
    and "target e \<in> fst ` set (g_nodes (dagreGraph ns es))"
    using dagreGraph_endpoints by blast+
next
  fix k assume "k \<notin> node_id ` set ns"
  then show "graph_node (dagreGraph ns es) k = None"
    by (simp add: graph_node_dagreGraph)
qed

theorem getLayoutedElements_any_edges_witness:
  "ghost_edge \<in> set [ghost_edge]
   \<and> source ghost_edge \<notin> node_id ` set [root0]
   \<and> getLayoutedElements (\<lambda>g. Some (row_engine g)) [root0] [ghost_edge]
       = Inr ([root0\<lparr>position := (Num 100, Num 100)\<rparr>], [ghost_edge])
   \<and> source ghost_edge \<in> fst ` set (g_nodes (dagreGraph [root0] [ghost_edge]))
   \<and> graph_node (dagreGraph [root0] [ghost_edge]) (source ghost_edge) = None
   \<and> getLayoutedElements failing_layout [root0] [ghost_edge] = Inl LayoutError"
proof -
  let ?g = "dagreGraph [root0] [ghost_edge]"
  have a: "source ghost_edge \<notin> node_id ` set [root0]" by code_simp
  have m: "map (positioned (row_engine ?g)) [root0] = [root0\<lparr>position := (Num 100, Num 100)\<rparr>]"
    by code_simp
  note t = getLayoutedElements_any_edges [of row_engine "[root0]" "[ghost_edge]"]
  from t m have 1: "getLayoutedElements (\<lambda>g. Some (row_engine g)) [root0] [ghost_edge]
       = Inr ([root0\<lparr>position := (Num 100, Num 100)\<rparr>], [ghost_edge])" by simp
  from t have 2: "source ghost_edge \<in> fst ` set (g_nodes ?g)" by simp
  from t a have 3: "graph_node ?g (source ghost_edge) = None" by blast
  from t have "getLayoutedElements failing_layout [root0] [ghost_edge] =
         (case failing_layout ?g of
            None \<Rightarrow> Inl LayoutError
          | Some pos \<Rightarrow> Inr (map (positioned pos) [root0], [ghost_edge]))" by blast
  then have 4: "getLayoutedElements failing_layout [root0] [ghost_edge] = Inl LayoutError"
    by (simp add: failing_layout_def)
  from a 1 2 3 4 show ?thesis by simp
qed

lemma graph_node_fold_setNode_other:
  "k \<notin> node_id ` set ns \<Longrightarrow>
   graph_node (foldl (\<lambda>g n. setNode (node_id n) (node_box n) g) g ns) k = graph_node g k"
  by (induction ns arbitrary: g) (simp_all add: graph_node_setNode)

lemma graph_node_fold_setNode_distinct:
  "distinct (map node_id ns) \<Longrightarrow> n \<in> set ns \<Longrightarrow>
   graph_node (foldl (\<lambda>g n. setNode (node_id n) (node_box n) g) g ns) (node_id n)
     = Some (node_box n)"
proof (induction ns arbitrary: g)
  case Nil
  then show ?case by simp
next
  case (Cons x xs)
  show ?case
  proof (cases "n = x")
    case True
    with Cons.prems have "node_id n \<notin> node_id ` set xs" by auto
    then show ?thesis using True
      by (simp add: graph_node_fold_setNode_other graph_node_setNode)
  next
    case False
    with Cons.prems have "n \<in> set xs" and "distinct (map node_id xs)" by simp_all
    with Cons.IH show ?thesis by simp
  qed
qed

lemma graph_node_dagreGraph_box:
  "distinct (map node_id ns) \<Longrightarrow> n \<in> set ns \<Longrightarrow>
   graph_node (dagreGraph ns es) (node_id n) = Some (node_box n)"
  by (simp add: dagreGraph_def graph_node_fold_setEdge graph_node_fold_setNode_distinct)

lemma graph_node_in_g_nodes:
  "graph_node g k = Some l \<Longrightarrow> (k, Some l) \<in> set (g_nodes g)"
  by (auto simp: graph_node_def split: option.splits dest: map_of_SomeD)

lemma g_config_setNode: "g_config (setNode v l g) = g_config g"
  by (simp add: setNode_def)

lemma g_config_setEdge: "g_config (setEdge v w g) = g_config g"
  by (simp add: setEdge_def ensureNode_def)

lemma g_config_fold_setNode:
  "g_config (foldl (\<lambda>g n. setNode (node_id n) (node_box n) g) g ns) = g_config g"
  by (induction ns arbitrary: g) (simp_all add: g_config_setNode)

lemma g_config_fold_setEdge:
  "g_config (foldl (\<lambda>g e. setEdge (source e) (target e) g) g es) = g_config g"
  by (induction es arbitrary: g) (simp_all add: g_config_setEdge)

lemma nodesep_dagreGraph: "nodesep (g_config (dagreGraph ns es)) = 100"
  by (simp add: dagreGraph_def g_config_fold_setEdge g_config_fold_setNode setGraph_def)

lemma separated_boxes:
  assumes ids: "distinct (map node_id ns)"
    and sep: "separated (dagreGraph ns es) pos"
    and a: "a \<in> set ns" and b: "b \<in> set ns" and ne: "node_id a \<noteq> node_id b"
    and pa: "pos (node_id a) = (Num xa, Num y)" and pb: "pos (node_id b) = (Num xb, Num y)"
  shows "500 \<le> \<bar>xa - xb\<bar>"
proof -
  let ?g = "dagreGraph ns es"
  from graph_node_dagreGraph_box [OF ids a] have "(node_id a, Some (node_box a)) \<in> set (g_nodes ?g)"
    by (rule graph_node_in_g_nodes)
  moreover from graph_node_dagreGraph_box [OF ids b]
  have "(node_id b, Some (node_box b)) \<in> set (g_nodes ?g)"
    by (rule graph_node_in_g_nodes)
  ultimately have
    "label_width (Some (node_box a)) / 2 + label_width (Some (node_box b)) / 2
       + nodesep (g_config ?g) \<le> \<bar>xa - xb\<bar>"
    using sep ne pa pb unfolding separated_def by fastforce
  then show ?thesis by (simp add: label_width_def node_box_def nodesep_dagreGraph)
qed

lemma tree_sample:
  "distinct (map node_id [root0, light0, leaf0])"
  "separated (dagreGraph [root0, light0, leaf0] tree_edges) tree_positions"
  "map (positioned tree_positions) [root0, light0, leaf0]
     = [root0\<lparr>position := (Num 350, Num 100)\<rparr>,
        light0\<lparr>position := (Num 100, Num 480)\<rparr>,
        leaf0\<lparr>position := (Num 600, Num 555)\<rparr>]"
  "hasImage light0" "\<not> hasImage leaf0" "\<not> hasImage root0"
  by code_simp+


text \<open>
  C7, as the specification states it, fails: the box of a node with an image is as wide
  as the box of a node without one.
\<close>

theorem node_box_same_width:
  "hasImage light0 \<and> \<not> hasImage root0
   \<and> width (node_box light0) = 400 \<and> width (node_box root0) = 400
   \<and> \<not> width (node_box root0) < width (node_box light0)"
  by code_simp

text \<open>
  C7, amended.  Let the identifiers of the nodes be distinct.  The box registered with the
  layout library for a node is 400 wide with or without image content, and 350 high with
  it against 200 without.  Let the library answer with coordinates that keep its promise
  for \<open>nodesep\<close>.  Then each node is returned with the top left corner of its box, the box
  centred on the coordinates of the library, and two different nodes of one rank get
  boxes that lie at least 100 apart horizontally.
\<close>

theorem node_box_and_position:
  assumes ids: "distinct (map node_id ns)"
    and ret: "layout (dagreGraph ns es) = Some pos"
    and sep: "separated (dagreGraph ns es) pos"
  shows "(\<forall>n \<in> set ns. graph_node (dagreGraph ns es) (node_id n)
              = Some \<lparr>width = 400, height = (if hasImage n then 350 else 200)\<rparr>)
       \<and> getLayoutedElements layout ns es = Inr (map (positioned pos) ns, es)
       \<and> (\<forall>n \<in> set ns. \<forall>cx cy. pos (node_id n) = (Num cx, Num cy) \<longrightarrow>
             position (positioned pos n)
               = (Num (cx - 400 / 2), Num (cy - (if hasImage n then 350 else 200) / 2)))
       \<and> (\<forall>a \<in> set ns. \<forall>b \<in> set ns. \<forall>xa xb y.
             node_id a \<noteq> node_id b \<and> pos (node_id a) = (Num xa, Num y)
               \<and> pos (node_id b) = (Num xb, Num y) \<longrightarrow>
             (\<exists>la lb. fst (position (positioned pos a)) = Num la
                    \<and> fst (position (positioned pos b)) = Num lb
                    \<and> (la + 400 + 100 \<le> lb \<or> lb + 400 + 100 \<le> la)))"
proof (intro conjI ballI allI impI)
  fix n assume "n \<in> set ns"
  from graph_node_dagreGraph_box [OF ids this]
  show "graph_node (dagreGraph ns es) (node_id n)
          = Some \<lparr>width = 400, height = (if hasImage n then 350 else 200)\<rparr>"
    by (simp add: node_box_def)
next
  from ret show "getLayoutedElements layout ns es = Inr (map (positioned pos) ns, es)"
    by (simp add: getLayoutedElements_cases)
next
  fix n cx cy assume "n \<in> set ns" and "pos (node_id n) = (Num cx, Num cy)"
  then show "position (positioned pos n)
               = (Num (cx - 400 / 2), Num (cy - (if hasImage n then 350 else 200) / 2))"
    by (simp add: positioned_def)
next
  fix a b xa xb y
  assume a: "a \<in> set ns" and b: "b \<in> set ns"
    and h: "node_id a \<noteq> node_id b \<and> pos (node_id a) = (Num xa, Num y)
               \<and> pos (node_id b) = (Num xb, Num y)"
  from separated_boxes [OF ids sep a b] h have "500 \<le> \<bar>xa - xb\<bar>" by blast
  then have "(xa - 200) + 400 + 100 \<le> xb - 200 \<or> (xb - 200) + 400 + 100 \<le> xa - 200"
    by linarith
  with h show "\<exists>la lb. fst (position (positioned pos a)) = Num la
                    \<and> fst (position (positioned pos b)) = Num lb
                    \<and> (la + 400 + 100 \<le> lb \<or> lb + 400 + 100 \<le> la)"
    by (simp add: positioned_def)
qed

theorem node_box_and_position_witness:
  "distinct (map node_id [root0, light0, leaf0])
   \<and> tree_layout (dagreGraph [root0, light0, leaf0] tree_edges) = Some tree_positions
   \<and> separated (dagreGraph [root0, light0, leaf0] tree_edges) tree_positions
   \<and> tree_positions (node_id light0) = (Num 300, Num 655)
   \<and> tree_positions (node_id leaf0) = (Num 800, Num 655)
   \<and> hasImage light0 \<and> \<not> hasImage leaf0
   \<and> graph_node (dagreGraph [root0, light0, leaf0] tree_edges) (node_id light0)
       = Some \<lparr>width = 400, height = 350\<rparr>
   \<and> graph_node (dagreGraph [root0, light0, leaf0] tree_edges) (node_id leaf0)
       = Some \<lparr>width = 400, height = 200\<rparr>
   \<and> getLayoutedElements tree_layout [root0, light0, leaf0] tree_edges
       = Inr ([root0\<lparr>position := (Num 350, Num 100)\<rparr>,
               light0\<lparr>position := (Num 100, Num 480)\<rparr>,
               leaf0\<lparr>position := (Num 600, Num 555)\<rparr>], tree_edges)
   \<and> (100 :: rat) + 400 + 100 \<le> 600"
proof -
  let ?ns = "[root0, light0, leaf0]"
  note s = tree_sample
  have ret: "tree_layout (dagreGraph ?ns tree_edges) = Some tree_positions"
    by (simp add: tree_layout_def)
  have pl: "tree_positions (node_id light0) = (Num 300, Num 655)"
    and pf: "tree_positions (node_id leaf0) = (Num 800, Num 655)"
    by code_simp+
  note t = node_box_and_position [where layout = tree_layout and pos = tree_positions, OF s(1) ret s(2)]
  from t have g: "getLayoutedElements tree_layout ?ns tree_edges
                  = Inr (map (positioned tree_positions) ?ns, tree_edges)" by blast
  from t [THEN conjunct1, rule_format, of light0] s(4)
  have bl: "graph_node (dagreGraph ?ns tree_edges) (node_id light0)
              = Some \<lparr>width = 400, height = 350\<rparr>" by simp
  from t [THEN conjunct1, rule_format, of leaf0] s(5)
  have bf: "graph_node (dagreGraph ?ns tree_edges) (node_id leaf0)
              = Some \<lparr>width = 400, height = 200\<rparr>" by simp
  from s ret pl pf g bl bf show ?thesis by simp
qed


section \<open>More properties of the graph store\<close>

lemma store2_facts:
  "currentSessionId store2 = Some ''u-1''"
  "nodes store2 = [root0, light0]"
  "storedSessions store2 ''u-2'' \<noteq> None"
  "storedSessions store2 ''u-1'' \<noteq> None"
  by (simp_all add: store2_def loadSession_def saveSession_def createNewSession_def
      session_key_def Let_def store1_def store0_def)

lemma sample_add_edges:
  "map_sum id edges (addNodesFromChat row_layout lc_ascii 42 action0 store0)
   = Inr [newEdge root0 ''node-chat-42'']"
  by code_simp

lemma sample_expand_edges:
  "edges (expandNode row_layout (\<lambda>i. 42) ''root'' (Some [gen0]) store0)
   = [\<lparr>edge_id = ''e-root-node-42-0'', source = ''root'', target = ''node-42-0'',
       animated = True\<rparr>]"
  by code_simp


text \<open>
  C4, as the specification states it, fails for \<open>onConnect\<close>: it stores the new edge list
  and leaves every node where it was.  Below, both nodes stay at the origin, although a
  layout pass over the two nodes and the new edge moves them.
\<close>

theorem onConnect_keeps_positions:
  "nodes (onConnect append_edge conn0 store1) = [root0, light0]
   \<and> edges (onConnect append_edge conn0 store1) = [conn0]
   \<and> position root0 = (Num 0, Num 0) \<and> position light0 = (Num 0, Num 0)
   \<and> getLayoutedElements row_layout [root0, light0] [conn0]
       = Inr ([root0\<lparr>position := (Num 100, Num 100)\<rparr>,
               light0\<lparr>position := (Num 600, Num 100)\<rparr>], [conn0])
   \<and> getLayoutedElements row_layout (nodes (onConnect append_edge conn0 store1))
         (edges (onConnect append_edge conn0 store1))
       \<noteq> Inr (nodes (onConnect append_edge conn0 store1),
               edges (onConnect append_edge conn0 store1))"
proof -
  have "getLayoutedElements row_layout [root0, light0] [conn0]
       = Inr ([root0\<lparr>position := (Num 100, Num 100)\<rparr>,
               light0\<lparr>position := (Num 600, Num 100)\<rparr>], [conn0])"
    by code_simp
  then show ?thesis
    by (simp add: onConnect_def store1_def store0_def append_edge_def root0_def light0_def)
qed

text \<open>
  C4, amended.  Whenever \<open>addNodesFromChat\<close> or \<open>expandNode\<close> stores a state with other
  nodes or edges than before, the stored nodes and edges are the result of one layout
  pass over all old nodes and edges together with the new ones, and a further layout
  pass would leave them as they are.  \<open>onConnect\<close> stores new edges and keeps the nodes
  with their positions.
\<close>

theorem layout_rerun_after_growth:
  "(\<forall>st'. addNodesFromChat layout lc now action st = Inr st'
          \<and> (nodes st' \<noteq> nodes st \<or> edges st' \<noteq> edges st) \<longrightarrow>
       (\<exists>parent. getLayoutedElements layout
                    (nodes st @ [newNode (''node-chat-'' @ show_nat now) action])
                    (edges st @ [newEdge parent (''node-chat-'' @ show_nat now)])
                  = Inr (nodes st', edges st'))
     \<and> getLayoutedElements layout (nodes st') (edges st') = Inr (nodes st', edges st'))
   \<and> (nodes (expandNode layout nowf parentId resp st) \<noteq> nodes st
        \<or> edges (expandNode layout nowf parentId resp st) \<noteq> edges st \<longrightarrow>
       (\<exists>gns. resp = Some gns \<and>
           getLayoutedElements layout
             (nodes st @ map (\<lambda>(i, gn). expandedNode nowf i gn) (enumerate 0 gns))
             (edges st @ map (expandedEdge parentId)
                           (map (\<lambda>(i, gn). expandedNode nowf i gn) (enumerate 0 gns)))
           = Inr (nodes (expandNode layout nowf parentId resp st),
                  edges (expandNode layout nowf parentId resp st)))
     \<and> getLayoutedElements layout (nodes (expandNode layout nowf parentId resp st))
                                   (edges (expandNode layout nowf parentId resp st))
         = Inr (nodes (expandNode layout nowf parentId resp st),
                edges (expandNode layout nowf parentId resp st)))
   \<and> nodes (onConnect addEdge c st) = nodes st"
proof (intro conjI allI impI)
  fix st'
  assume a: "addNodesFromChat layout lc now action st = Inr st'
             \<and> (nodes st' \<noteq> nodes st \<or> edges st' \<noteq> edges st)"
  then obtain parent where p: "getLayoutedElements layout
                    (nodes st @ [newNode (''node-chat-'' @ show_nat now) action])
                    (edges st @ [newEdge parent (''node-chat-'' @ show_nat now)])
                  = Inr (nodes st', edges st')"
    using addNodesFromChat_changed by blast
  then show "\<exists>parent. getLayoutedElements layout
                    (nodes st @ [newNode (''node-chat-'' @ show_nat now) action])
                    (edges st @ [newEdge parent (''node-chat-'' @ show_nat now)])
                  = Inr (nodes st', edges st')" by blast
  from p show "getLayoutedElements layout (nodes st') (edges st') = Inr (nodes st', edges st')"
    by (rule getLayoutedElements_fixpoint)
next
  let ?st' = "expandNode layout nowf parentId resp st"
  assume ch: "nodes ?st' \<noteq> nodes st \<or> edges ?st' \<noteq> edges st"
  from expandNode_changed [OF ch]
  show e: "\<exists>gns. resp = Some gns \<and>
           getLayoutedElements layout
             (nodes st @ map (\<lambda>(i, gn). expandedNode nowf i gn) (enumerate 0 gns))
             (edges st @ map (expandedEdge parentId)
                           (map (\<lambda>(i, gn). expandedNode nowf i gn) (enumerate 0 gns)))
           = Inr (nodes ?st', edges ?st')" .
  then show "getLayoutedElements layout (nodes ?st') (edges ?st') = Inr (nodes ?st', edges ?st')"
    using getLayoutedElements_fixpoint by blast
next
  show "nodes (onConnect addEdge c st) = nodes st" by (simp add: onConnect_def)
qed

theorem layout_rerun_after_growth_witness:
  "(\<exists>st'. addNodesFromChat row_layout lc_ascii 42 action0 store0 = Inr st'
        \<and> edges st' \<noteq> edges store0
        \<and> getLayoutedElements row_layout (nodes st') (edges st') = Inr (nodes st', edges st'))
   \<and> edges (expandNode row_layout (\<lambda>i. 42) ''root'' (Some [gen0]) store0) \<noteq> edges store0
   \<and> getLayoutedElements row_layout
        (nodes (expandNode row_layout (\<lambda>i. 42) ''root'' (Some [gen0]) store0))
        (edges (expandNode row_layout (\<lambda>i. 42) ''root'' (Some [gen0]) store0))
      = Inr (nodes (expandNode row_layout (\<lambda>i. 42) ''root'' (Some [gen0]) store0),
             edges (expandNode row_layout (\<lambda>i. 42) ''root'' (Some [gen0]) store0))"
proof -
  have es0: "edges store0 = []" by (simp add: store0_def)
  from sample_add_edges obtain st' where
    r: "addNodesFromChat row_layout lc_ascii 42 action0 store0 = Inr st'"
    and e: "edges st' = [newEdge root0 ''node-chat-42'']"
    by (cases "addNodesFromChat row_layout lc_ascii 42 action0 store0") auto
  from e es0 have ne: "edges st' \<noteq> edges store0" by simp
  have ne2: "edges (expandNode row_layout (\<lambda>i. 42) ''root'' (Some [gen0]) store0) \<noteq> edges store0"
    by (simp add: sample_expand_edges es0)
  note t = layout_rerun_after_growth [of row_layout lc_ascii 42 action0 store0 "\<lambda>i. 42" "''root''" "Some [gen0]"
                 append_edge conn0]
  from t [THEN conjunct1, rule_format, of st'] r ne
  have "getLayoutedElements row_layout (nodes st') (edges st') = Inr (nodes st', edges st')"
    by simp
  moreover from t [THEN conjunct2, THEN conjunct1] ne2 have "getLayoutedElements row_layout
        (nodes (expandNode row_layout (\<lambda>i. 42) ''root'' (Some [gen0]) store0))
        (edges (expandNode row_layout (\<lambda>i. 42) ''root'' (Some [gen0]) store0))
      = Inr (nodes (expandNode row_layout (\<lambda>i. 42) ''root'' (Some [gen0]) store0),
             edges (expandNode row_layout (\<lambda>i. 42) ''root'' (Some [gen0]) store0))"
    by simp
  ultimately show ?thesis using r ne ne2 by blast
qed


text \<open>
  C8.  \<open>saveSession\<close> makes the saved session the current one, and \<open>loadSession\<close> with its
  identifier, in any later store that still holds that session, restores the nodes, the
  edges and the chat history of the moment of the save.
\<close>

theorem saveSession_loadSession_roundtrip:
  "\<exists>sid. currentSessionId (saveSession uuid now title st) = Some sid
     \<and> (\<forall>st2. storedSessions st2 sid = storedSessions (saveSession uuid now title st) sid \<longrightarrow>
           nodes (loadSession sid st2) = nodes st
         \<and> edges (loadSession sid st2) = edges st
         \<and> chatHistory (loadSession sid st2) = chatHistory st
         \<and> currentSessionId (loadSession sid st2) = Some sid)"
  by (simp add: saveSession_def loadSession_def Let_def)

theorem saveSession_loadSession_roundtrip_witness:
  "currentSessionId (saveSession ''u-1'' 7 ''Photosynthesis'' store1) = Some ''u-1''
   \<and> storedSessions (createNewSession (saveSession ''u-1'' 7 ''Photosynthesis'' store1)) ''u-1''
       = storedSessions (saveSession ''u-1'' 7 ''Photosynthesis'' store1) ''u-1''
   \<and> nodes (createNewSession (saveSession ''u-1'' 7 ''Photosynthesis'' store1)) = []
   \<and> nodes (loadSession ''u-1'' (createNewSession (saveSession ''u-1'' 7 ''Photosynthesis'' store1)))
       = [root0, light0]
   \<and> nodes (loadSession ''u-1'' (saveSession ''u-1'' 7 ''Photosynthesis'' store1)) = [root0, light0]"
proof -
  let ?s = "saveSession ''u-1'' 7 ''Photosynthesis'' store1"
  have cur: "currentSessionId ?s = Some ''u-1''"
    by (simp add: saveSession_def Let_def session_key_def store1_def store0_def)
  have same: "storedSessions (createNewSession ?s) ''u-1'' = storedSessions ?s ''u-1''"
    by (simp add: createNewSession_def)
  have emp: "nodes (createNewSession ?s) = []" by (simp add: createNewSession_def)
  have ns: "nodes store1 = [root0, light0]" by (simp add: store1_def)
  from saveSession_loadSession_roundtrip [of "''u-1''" 7 "''Photosynthesis''" store1] cur
  have all: "\<forall>st2. storedSessions st2 ''u-1'' = storedSessions ?s ''u-1'' \<longrightarrow>
              nodes (loadSession ''u-1'' st2) = nodes store1" by auto
  from all same have a: "nodes (loadSession ''u-1'' (createNewSession ?s)) = nodes store1" by blast
  from all have b: "nodes (loadSession ''u-1'' ?s) = nodes store1" by blast
  from cur same emp a b ns show ?thesis by simp
qed


text \<open>
  C9.  \<open>deleteSession\<close> removes the session with the given identifier and keeps every
  other stored session.  When the identifier is not the current one, nodes, edges, chat
  history and current identifier stay; when it is, they are those of a new session.
\<close>

theorem deleteSession_frame:
  "storedSessions (deleteSession i st) i = None
   \<and> (\<forall>k. k \<noteq> i \<longrightarrow> storedSessions (deleteSession i st) k = storedSessions st k)
   \<and> (currentSessionId st \<noteq> Some i \<longrightarrow>
        nodes (deleteSession i st) = nodes st
      \<and> edges (deleteSession i st) = edges st
      \<and> chatHistory (deleteSession i st) = chatHistory st
      \<and> currentSessionId (deleteSession i st) = currentSessionId st)
   \<and> (currentSessionId st = Some i \<longrightarrow>
        nodes (deleteSession i st) = []
      \<and> edges (deleteSession i st) = []
      \<and> currentSessionId (deleteSession i st) = None
      \<and> chatHistory (deleteSession i st) = greeting)"
  by (simp add: deleteSession_def createNewSession_def Let_def)



theorem deleteSession_frame_witness:
  "currentSessionId store2 = Some ''u-1''
   \<and> storedSessions store2 ''u-2'' \<noteq> None
   \<and> storedSessions (deleteSession ''u-2'' store2) ''u-2'' = None
   \<and> storedSessions (deleteSession ''u-2'' store2) ''u-1'' = storedSessions store2 ''u-1''
   \<and> nodes (deleteSession ''u-2'' store2) = [root0, light0]
   \<and> currentSessionId (deleteSession ''u-2'' store2) = Some ''u-1''
   \<and> storedSessions (deleteSession ''u-1'' store2) ''u-2'' = storedSessions store2 ''u-2''
   \<and> nodes (deleteSession ''u-1'' store2) = []
   \<and> currentSessionId (deleteSession ''u-1'' store2) = None
   \<and> chatHistory (deleteSession ''u-1'' store2) = greeting"
proof -
  note f = store2_facts
  have c2: "currentSessionId store2 \<noteq> Some ''u-2''" using f(1) by simp
  note a = deleteSession_frame [of "''u-2''" store2]
  note b = deleteSession_frame [of "''u-1''" store2]
  from a have 1: "storedSessions (deleteSession ''u-2'' store2) ''u-2'' = None"
    by (rule conjunct1)
  from a [THEN conjunct2, THEN conjunct1, rule_format, of "''u-1''"]
  have 2: "storedSessions (deleteSession ''u-2'' store2) ''u-1'' = storedSessions store2 ''u-1''"
    by simp
  from a [THEN conjunct2, THEN conjunct2, THEN conjunct1, rule_format, OF c2]
  have 3: "nodes (deleteSession ''u-2'' store2) = nodes store2"
    and 4: "currentSessionId (deleteSession ''u-2'' store2) = currentSessionId store2"
    by simp_all
  from b [THEN conjunct2, THEN conjunct1, rule_format, of "''u-2''"]
  have 5: "storedSessions (deleteSession ''u-1'' store2) ''u-2'' = storedSessions store2 ''u-2''"
    by simp
  from b [THEN conjunct2, THEN conjunct2, THEN conjunct2, rule_format, OF f(1)]
  have 6: "nodes (deleteSession ''u-1'' store2) = []"
    and 7: "currentSessionId (deleteSession ''u-1'' store2) = None"
    and 8: "chatHistory (deleteSession ''u-1'' store2) = greeting"
    by simp_all
  from f(1) f(3) 1 2 3 4 5 6 7 8 show ?thesis by (simp add: f(2))
qed

end
